theory Spec2Isabelle
  imports Main "HOL-Library.Multiset"
begin

section \<open>Gozer: the content pipeline of \<^verbatim>\<open>gozer.go\<close>\<close>

text \<open>
  A shallow embedding of the content pipeline of the static site generator: the filename
  parser, the front-matter parser, the content renderer, the page registry built by the
  directory walk, the category filter handed to templates and the item loop of the RSS
  feed.

  Go strings and byte slices are sequences of bytes: both are \<^typ>\<open>string\<close> here
  (a list of 8-bit characters), and \<open>len\<close> is \<^const>\<open>length\<close>.
\<close>

subsection \<open>Errors\<close>

text \<open>
  Every error value the modelled functions can return, and the one run-time panic (an
  index out of range), which ends the process in Go and is propagated like an error here.
\<close>

datatype error =
    PathError string
  | EOF
  | MissingClosingFrontMatter string
  | ParseError string
  | DecodeError string
  | ConvertError string
  | Panic string

subsection \<open>Package \<^verbatim>\<open>strings\<close> and \<^verbatim>\<open>bytes\<close>\<close>

definition HasPrefix :: "string \<Rightarrow> string \<Rightarrow> bool" where
  "HasPrefix s pre = (length pre \<le> length s \<and> take (length pre) s = pre)"

definition HasSuffix :: "string \<Rightarrow> string \<Rightarrow> bool" where
  "HasSuffix s suf = (length suf \<le> length s \<and> drop (length s - length suf) s = suf)"

definition TrimPrefix :: "string \<Rightarrow> string \<Rightarrow> string" where
  "TrimPrefix s pre = (if HasPrefix s pre then drop (length pre) s else s)"

definition TrimSuffix :: "string \<Rightarrow> string \<Rightarrow> string" where
  "TrimSuffix s suf = (if HasSuffix s suf then take (length s - length suf) s else s)"

text \<open>
  \<^verbatim>\<open>bytes.Index(s, sep)\<close>: the offset of the first occurrence of \<open>sep\<close> in \<open>s\<close>;
  Go's \<open>-1\<close> is \<open>None\<close>.
\<close>

fun bytes_Index :: "string \<Rightarrow> string \<Rightarrow> nat option" where
  "bytes_Index [] sep = (if sep = [] then Some 0 else None)"
| "bytes_Index (c # cs) sep =
     (if HasPrefix (c # cs) sep then Some 0
      else (case bytes_Index cs sep of None \<Rightarrow> None | Some i \<Rightarrow> Some (Suc i)))"

text \<open>
  \<^verbatim>\<open>strings.Split(s, "/")\<close>: the pieces of \<open>s\<close> between the occurrences of the one-byte
  separator; \<open>n\<close> separators give \<open>n + 1\<close> pieces.
\<close>

fun strings_Split :: "string \<Rightarrow> char \<Rightarrow> string list" where
  "strings_Split [] sep = [[]]"
| "strings_Split (c # cs) sep =
     (if c = sep then [] # strings_Split cs sep
      else (case strings_Split cs sep of
              [] \<Rightarrow> [[c]]
            | piece # pieces \<Rightarrow> (c # piece) # pieces))"

subsection \<open>Package \<^verbatim>\<open>path/filepath\<close> (Unix, separator \<open>/\<close>)\<close>

definition filepath_ToSlash :: "string \<Rightarrow> string" where
  "filepath_ToSlash path = path"

text \<open>
  \<^verbatim>\<open>filepath.Base\<close>: \<open>"."\<close> for the empty path; otherwise trailing slashes are
  stripped and the last element is returned, \<open>"/"\<close> if nothing is left.
\<close>

definition filepath_Base :: "string \<Rightarrow> string" where
  "filepath_Base path =
     (if path = [] then ''.''
      else let stripped = rev (dropWhile (\<lambda>c. c = CHR ''/'') (rev path));
               elem = rev (takeWhile (\<lambda>c. c \<noteq> CHR ''/'') (rev stripped))
           in if elem = [] then ''/'' else elem)"

subsection \<open>Package \<^verbatim>\<open>time\<close>\<close>

text \<open>
  A \<^verbatim>\<open>time.Time\<close> in UTC: the calendar date and the nanoseconds since midnight. The zero
  value \<^verbatim>\<open>time.Time{}\<close> is January 1 of year 1, 00:00:00 UTC.
\<close>

record Time =
  year :: nat
  month :: nat
  day :: nat
  nsec :: nat

definition zeroTime :: Time where
  "zeroTime = \<lparr>year = 1, month = 1, day = 1, nsec = 0\<rparr>"

definition IsZero :: "Time \<Rightarrow> bool" where
  "IsZero t = (t = zeroTime)"

definition After :: "Time \<Rightarrow> Time \<Rightarrow> bool" where
  "After t u =
     (year u < year t \<or> (year t = year u \<and>
       (month u < month t \<or> (month t = month u \<and>
         (day u < day t \<or> (day t = day u \<and> nsec u < nsec t))))))"

definition isDigit :: "char \<Rightarrow> bool" where
  "isDigit c = (48 \<le> (of_char c :: nat) \<and> (of_char c :: nat) \<le> 57)"

definition digitVal :: "char \<Rightarrow> nat" where
  "digitVal c = (of_char c :: nat) - 48"

definition isLeap :: "nat \<Rightarrow> bool" where
  "isLeap y = (y mod 4 = 0 \<and> (y mod 400 = 0 \<or> y mod 100 \<noteq> 0))"

definition daysIn :: "nat \<Rightarrow> nat \<Rightarrow> nat" where
  "daysIn m y =
     (if m = 2 then (if isLeap y then 29 else 28)
      else if m = 4 \<or> m = 6 \<or> m = 9 \<or> m = 11 then 30
      else 31)"

text \<open>
  \<^verbatim>\<open>time.Parse("2006-01-02", value)\<close>: four digits, \<open>-\<close>, two digits, \<open>-\<close>, two
  digits and nothing else; the month in 1..12 and the day within the month. The result is
  midnight UTC of that date.
\<close>

definition time_Parse :: "string \<Rightarrow> error + Time" where
  "time_Parse v =
     (if length v = 10
         \<and> isDigit (v ! 0) \<and> isDigit (v ! 1) \<and> isDigit (v ! 2) \<and> isDigit (v ! 3)
         \<and> v ! 4 = CHR ''-''
         \<and> isDigit (v ! 5) \<and> isDigit (v ! 6)
         \<and> v ! 7 = CHR ''-''
         \<and> isDigit (v ! 8) \<and> isDigit (v ! 9)
      then
        let y = 1000 * digitVal (v ! 0) + 100 * digitVal (v ! 1)
                  + 10 * digitVal (v ! 2) + digitVal (v ! 3);
            m = 10 * digitVal (v ! 5) + digitVal (v ! 6);
            d = 10 * digitVal (v ! 8) + digitVal (v ! 9)
        in if m < 1 \<or> 12 < m then Inl (ParseError v)
           else if d < 1 \<or> daysIn m y < d then Inl (ParseError v)
           else Inr \<lparr>year = y, month = m, day = d, nsec = 0\<rparr>
      else Inl (ParseError v))"

subsection \<open>The filename parser\<close>

text \<open>Lines 79 to 83 of \<^verbatim>\<open>parseFilename\<close>: the path with root, extension and index removed.\<close>

definition trimPath :: "string \<Rightarrow> string \<Rightarrow> string" where
  "trimPath path rootDir =
     (let path = filepath_ToSlash path;
          path = TrimPrefix path (rootDir @ ''content/'');
          path = TrimSuffix path ''.md'';
          path = TrimSuffix path ''.html'';
          path = TrimSuffix path ''index''
      in path)"

text \<open>The test of line 86 on the last path element.\<close>

definition hasDatePrefix :: "string \<Rightarrow> bool" where
  "hasDatePrefix filename =
     (11 < length filename \<and> filename ! 4 = CHR ''-'' \<and> filename ! 7 = CHR ''-''
        \<and> filename ! 10 = CHR ''-'')"

definition appendSlash :: "string \<Rightarrow> string" where
  "appendSlash path = (if path \<noteq> [] \<and> \<not> HasSuffix path ''/'' then path @ ''/'' else path)"

definition parseFilename :: "string \<Rightarrow> string \<Rightarrow> string \<times> Time" where
  "parseFilename path0 rootDir =
     (let path = trimPath path0 rootDir;
          filename = filepath_Base path
      in if hasDatePrefix filename
         then (case time_Parse (take 10 filename) of
                 Inr date \<Rightarrow>
                   (take (length path - length filename) path @ drop 11 filename @ ''/'', date)
               | Inl err \<Rightarrow> (appendSlash path, zeroTime))
         else (appendSlash path, zeroTime))"

subsection \<open>Pages, the site and the file system\<close>

record Page =
  Title :: string
  Tags :: "string list"
  Category :: string
  Template :: string
  DatePublished :: Time
  DateModified :: Time
  Permalink :: string
  UrlPath :: string
  Filepath :: string

text \<open>
  The \<^verbatim>\<open>Site\<close> struct; its \<^verbatim>\<open>Title\<close> field is \<open>SiteTitle\<close> here, the name
  \<open>Title\<close> being taken by the page's field.
\<close>

record Site =
  pages :: "Page list"
  posts :: "Page list"
  SiteTitle :: string
  SiteUrl :: string
  RootDir :: string

text \<open>
  The file system as the program reads it: a path leads to a regular file, with its bytes
  and its modification time, or to nothing, in which case \<^verbatim>\<open>os.Stat\<close>,
  \<^verbatim>\<open>os.Open\<close> and \<^verbatim>\<open>os.ReadFile\<close> fail.
\<close>

record File =
  content :: string
  ModTime :: Time

type_synonym filesystem = "string \<Rightarrow> File option"

text \<open>
  \<^verbatim>\<open>toml.Unmarshal(data, p)\<close> belongs to a library: the decoder is a parameter that
  takes the bytes of the header block and the page, and returns the page with the decoded
  keys assigned, or an error.
\<close>

type_synonym unmarshal = "string \<Rightarrow> Page \<Rightarrow> error + Page"

text \<open>
  The Markdown converter \<^verbatim>\<open>md.Convert\<close> is a parameter too: bytes to HTML text, or
  an error.
\<close>

type_synonym converter = "string \<Rightarrow> error + string"

subsection \<open>The front-matter parser\<close>

definition frontMatter :: string where
  "frontMatter = ''+++''"

text \<open>
  One \<^verbatim>\<open>fh.Read(buf)\<close> on a freshly opened regular file with a buffer of \<open>cap\<close> bytes:
  the first \<open>cap\<close> bytes of the file, fewer if the file is shorter, and \<^verbatim>\<open>io.EOF\<close>
  if the file is empty.
\<close>

definition fh_Read :: "nat \<Rightarrow> string \<Rightarrow> error + string" where
  "fh_Read cap bytes = (if bytes = [] then Inl EOF else Inr (take cap bytes))"

definition parseFrontMatter :: "unmarshal \<Rightarrow> filesystem \<Rightarrow> Page \<Rightarrow> error + Page" where
  "parseFrontMatter toml_Unmarshal fs p =
     (case fs (Filepath p) of
        None \<Rightarrow> Inl (PathError (Filepath p))
      | Some fh \<Rightarrow>
          (case fh_Read 1024 (content fh) of
             Inl err \<Rightarrow> Inl err
           | Inr buf \<Rightarrow>
               if \<not> HasPrefix buf frontMatter then Inr p
               else
                 let buf = drop 3 buf
                 in (case bytes_Index buf frontMatter of
                       None \<Rightarrow> Inl (MissingClosingFrontMatter (Filepath p))
                     | Some pos \<Rightarrow> toml_Unmarshal (take pos buf) p)))"

subsection \<open>The content renderer\<close>

text \<open>Lines 137 to 143 of \<^verbatim>\<open>ParseContent\<close>, under the comment "Skip front matter".\<close>

definition skipFrontMatter :: "string \<Rightarrow> string" where
  "skipFrontMatter fileContent =
     (if 6 < length fileContent
      then (case bytes_Index (drop 3 fileContent) frontMatter of
              Some pos \<Rightarrow> drop (pos + 6) fileContent
            | None \<Rightarrow> fileContent)
      else fileContent)"

definition ParseContent :: "converter \<Rightarrow> filesystem \<Rightarrow> Page \<Rightarrow> error + string" where
  "ParseContent md_Convert fs p =
     (case fs (Filepath p) of
        None \<Rightarrow> Inl (PathError (Filepath p))
      | Some fh \<Rightarrow>
          let fileContent = skipFrontMatter (content fh)
          in if HasSuffix (Filepath p) ''.html'' then Inr fileContent
             else md_Convert fileContent)"

subsection \<open>The page registry\<close>

text \<open>
  \<^verbatim>\<open>AddPageFromFile\<close> returns the site with the page appended, or the error; on an
  error the site is as it was. Indexing the split path at 1 panics when the path has no
  slash.
\<close>

definition AddPageFromFile :: "unmarshal \<Rightarrow> filesystem \<Rightarrow> Site \<Rightarrow> string \<Rightarrow> error + Site" where
  "AddPageFromFile toml_Unmarshal fs s file =
     (case fs file of
        None \<Rightarrow> Inl (PathError file)
      | Some info \<Rightarrow>
          let (urlPath, datePublished) = parseFilename file (RootDir s);
              parts = strings_Split file (CHR ''/'')
          in if length parts < 2 then Inl (Panic ''index out of range'')
             else
               let category = parts ! 1;
                   category = (if HasSuffix category ''.md'' then ''page'' else category);
                   p = \<lparr>Title = [], Tags = [], Category = category,
                        Template = ''default.html'', DatePublished = datePublished,
                        DateModified = ModTime info, Permalink = SiteUrl s @ urlPath,
                        UrlPath = urlPath, Filepath = file\<rparr>
               in (case parseFrontMatter toml_Unmarshal fs p of
                     Inl err \<Rightarrow> Inl err
                   | Inr p \<Rightarrow>
                       let s = s\<lparr>pages := pages s @ [p]\<rparr>
                       in if \<not> IsZero (DatePublished p)
                          then Inr (s\<lparr>posts := posts s @ [p]\<rparr>)
                          else Inr s))"

text \<open>
  \<^verbatim>\<open>filepath.WalkDir\<close> calls the function once for every directory and file of the
  tree, in lexical order, and stops at the first error the function returns, which it
  returns itself. The tree is given as that sequence of entries. The function of
  \<^verbatim>\<open>readContent\<close> returns nil for a directory and the result of
  \<^verbatim>\<open>AddPageFromFile\<close> for a file.
\<close>

record DirEntry =
  path :: string
  IsDir :: bool

fun WalkDir :: "unmarshal \<Rightarrow> filesystem \<Rightarrow> DirEntry list \<Rightarrow> Site \<Rightarrow> error option \<times> Site" where
  "WalkDir toml_Unmarshal fs [] s = (None, s)"
| "WalkDir toml_Unmarshal fs (d # ds) s =
     (if IsDir d then WalkDir toml_Unmarshal fs ds s
      else (case AddPageFromFile toml_Unmarshal fs s (path d) of
              Inl err \<Rightarrow> (Some err, s)
            | Inr s' \<Rightarrow> WalkDir toml_Unmarshal fs ds s'))"

text \<open>The \<open>less\<close> function \<^verbatim>\<open>readContent\<close> hands to \<^verbatim>\<open>sort.Slice\<close>.\<close>

definition lessPosts :: "Page \<Rightarrow> Page \<Rightarrow> bool" where
  "lessPosts a b = After (DatePublished a) (DatePublished b)"

text \<open>
  \<^verbatim>\<open>sort.Slice\<close> belongs to the standard library and is a parameter: a function from
  \<open>less\<close> and the slice to the sorted slice. Its documentation promises a permutation of
  the input in which no element is \<open>less\<close> than one before it, and says that the sort
  is not guaranteed to be stable.
\<close>

type_synonym sorter = "(Page \<Rightarrow> Page \<Rightarrow> bool) \<Rightarrow> Page list \<Rightarrow> Page list"


definition readContent ::
    "sorter \<Rightarrow> unmarshal \<Rightarrow> filesystem \<Rightarrow> DirEntry list \<Rightarrow> Site \<Rightarrow> error option \<times> Site" where
  "readContent sort_Slice toml_Unmarshal fs dir s =
     (let (err, s) = WalkDir toml_Unmarshal fs dir s;
          s = s\<lparr>posts := sort_Slice lessPosts (posts s)\<rparr>
      in (err, s))"

subsection \<open>The category filter\<close>

text \<open>
  The loop of \<^verbatim>\<open>filterPosts\<close> over the copy: at index \<open>i\<close> it reads the element and,
  if the category is the tag, writes it at index \<open>n\<close> of the same slice.
\<close>

function filterPosts_loop :: "string \<Rightarrow> Page list \<Rightarrow> nat \<Rightarrow> nat \<Rightarrow> Page list \<times> nat" where
  "filterPosts_loop tag postsCopy i n =
     (if i < length postsCopy
      then (let val = postsCopy ! i
            in if Category val = tag
               then filterPosts_loop tag (postsCopy[n := val]) (Suc i) (Suc n)
               else filterPosts_loop tag postsCopy (Suc i) n)
      else (postsCopy, n))"
  by pat_completeness auto
termination
  by (relation "measure (\<lambda>(tag, postsCopy, i, n). length postsCopy - i)") auto

definition filterPosts :: "Page list \<Rightarrow> string \<Rightarrow> Page list" where
  "filterPosts ps tag =
     (if tag = ''page'' then ps
      else let (postsCopy, n) = filterPosts_loop tag ps 0 0
           in take n postsCopy)"

subsection \<open>The RSS feed\<close>






subsection \<open>Sample inputs\<close>

text \<open>Concrete pages, files and library functions on which the theorems below are run.\<close>

definition samplePage :: "string \<Rightarrow> string \<Rightarrow> Time \<Rightarrow> Page" where
  "samplePage file category date =
     \<lparr>Title = [], Tags = [], Category = category, Template = ''default.html'',
      DatePublished = date, DateModified = zeroTime, Permalink = ''http://localhost:8080/'',
      UrlPath = [], Filepath = file\<rparr>"

text \<open>A file system with one file, and one with two.\<close>

definition oneFile :: "string \<Rightarrow> string \<Rightarrow> filesystem" where
  "oneFile file bytes = (\<lambda>f. if f = file then Some \<lparr>content = bytes, ModTime = zeroTime\<rparr> else None)"

text \<open>A decoder that assigns no key: what the TOML decoder does on a block that sets none.\<close>

definition keepPage :: unmarshal where
  "keepPage data p = Inr p"

text \<open>A file whose header block is closed at byte offset 1024.\<close>

definition longHeader :: string where
  "longHeader = ''+++'' @ replicate 1021 (CHR ''x'') @ ''+++''"



text \<open>The site before the walk, for a given root directory.\<close>

definition emptySite :: "string \<Rightarrow> Site" where
  "emptySite rootDir =
     \<lparr>pages = [], posts = [], SiteTitle = ''My website'',
      SiteUrl = ''http://localhost:8080/'', RootDir = rootDir\<rparr>"


definition twoFiles :: "string \<Rightarrow> string \<Rightarrow> string \<Rightarrow> string \<Rightarrow> filesystem" where
  "twoFiles file1 bytes1 file2 bytes2 =
     (\<lambda>f. if f = file1 then Some \<lparr>content = bytes1, ModTime = zeroTime\<rparr>
          else if f = file2 then Some \<lparr>content = bytes2, ModTime = zeroTime\<rparr>
          else None)"

text \<open>The walk of a content directory that holds the given files and no directory.\<close>

definition flatWalk :: "string list \<Rightarrow> DirEntry list" where
  "flatWalk files =
     \<lparr>path = ''content'', IsDir = True\<rparr> # map (\<lambda>f. \<lparr>path = f, IsDir = False\<rparr>) files"

text \<open>
  Two sorters within the documented contract of \<^verbatim>\<open>sort.Slice\<close>. The first is an
  insertion sort that puts an element behind the elements it does not come before; the
  second runs it on the reversed slice.
\<close>

fun insertAfter :: "(Page \<Rightarrow> Page \<Rightarrow> bool) \<Rightarrow> Page \<Rightarrow> Page list \<Rightarrow> Page list" where
  "insertAfter lt x [] = [x]"
| "insertAfter lt x (y # ys) =
     (if lt x y then x # y # ys else y # insertAfter lt x ys)"

definition insertionSort :: sorter where
  "insertionSort lt xs = fold (insertAfter lt) xs []"


section \<open>Properties\<close>

subsection \<open>The category filter\<close>

text \<open>
  The loop writes behind its read position: after it has read the elements from \<open>i\<close> on,
  the first \<open>n'\<close> cells hold what they held before, followed by the elements read whose
  category is the tag.
\<close>

lemma filterPosts_loop_inv:
  "n \<le> i \<Longrightarrow> i \<le> length arr \<Longrightarrow> filterPosts_loop tag arr i n = (arr', n') \<Longrightarrow>
     take n' arr' = take n arr @ filter (\<lambda>p. Category p = tag) (drop i arr)"
proof (induction tag arr i n rule: filterPosts_loop.induct)
  case (1 tag postsCopy i n)
  show ?case
  proof (cases "i < length postsCopy")
    case False
    with "1.prems" show ?thesis by simp
  next
    case True
    note lt = True
    have here: "drop i postsCopy = postsCopy ! i # drop (Suc i) postsCopy"
      using lt by (simp add: Cons_nth_drop_Suc)
    show ?thesis
    proof (cases "Category (postsCopy ! i) = tag")
      case True
      from lt True "1.prems"(3)
      have run: "filterPosts_loop tag (postsCopy[n := postsCopy ! i]) (Suc i) (Suc n) = (arr', n')"
        by (simp add: Let_def)
      have "take n' arr' = take (Suc n) (postsCopy[n := postsCopy ! i])
              @ filter (\<lambda>p. Category p = tag) (drop (Suc i) (postsCopy[n := postsCopy ! i]))"
        using "1.IH"(1)[OF lt refl True _ _ run] "1.prems"(1) lt by simp
      moreover have "take (Suc n) (postsCopy[n := postsCopy ! i]) = take n postsCopy @ [postsCopy ! i]"
        using "1.prems"(1) lt by (simp add: take_Suc_conv_app_nth)
      moreover have "drop (Suc i) (postsCopy[n := postsCopy ! i]) = drop (Suc i) postsCopy"
        using "1.prems"(1) by simp
      ultimately show ?thesis using True here by simp
    next
      case False
      from lt False "1.prems"(3)
      have run: "filterPosts_loop tag postsCopy (Suc i) n = (arr', n')"
        by (simp add: Let_def)
      have "take n' arr' = take n postsCopy @ filter (\<lambda>p. Category p = tag) (drop (Suc i) postsCopy)"
        using "1.IH"(2)[OF lt refl False _ _ run] "1.prems"(1) lt by simp
      then show ?thesis using False here by simp
    qed
  qed
qed

text \<open>
  Claim C7. With the tag \<open>page\<close> the filter returns the posts it was given, whatever they
  are; with any other tag it returns the posts whose category is the tag, in the order of
  the input.
\<close>

theorem filterPosts_page_or_category:
  "filterPosts ps ''page'' = ps
   \<and> (tag \<noteq> ''page'' \<longrightarrow> filterPosts ps tag = filter (\<lambda>p. Category p = tag) ps)"
proof -
  obtain arr' n' where run: "filterPosts_loop tag ps 0 0 = (arr', n')"
    by (cases "filterPosts_loop tag ps 0 0")
  from filterPosts_loop_inv[OF _ _ run] have "take n' arr' = filter (\<lambda>p. Category p = tag) ps"
    by simp
  with run show ?thesis by (simp add: filterPosts_def)
qed

theorem filterPosts_page_or_category_witness:
  "filterPosts [samplePage ''content/blog/a.md'' ''blog'' zeroTime,
                samplePage ''content/about.md'' ''page'' zeroTime,
                samplePage ''content/blog/b.md'' ''blog'' zeroTime] ''page''
     = [samplePage ''content/blog/a.md'' ''blog'' zeroTime,
        samplePage ''content/about.md'' ''page'' zeroTime,
        samplePage ''content/blog/b.md'' ''blog'' zeroTime]
   \<and> ''blog'' \<noteq> ''page''
   \<and> filterPosts [samplePage ''content/blog/a.md'' ''blog'' zeroTime,
                  samplePage ''content/about.md'' ''page'' zeroTime,
                  samplePage ''content/blog/b.md'' ''blog'' zeroTime] ''blog''
     = [samplePage ''content/blog/a.md'' ''blog'' zeroTime,
        samplePage ''content/blog/b.md'' ''blog'' zeroTime]"
  using filterPosts_page_or_category
    [of "[samplePage ''content/blog/a.md'' ''blog'' zeroTime,
          samplePage ''content/about.md'' ''page'' zeroTime,
          samplePage ''content/blog/b.md'' ''blog'' zeroTime]" "''blog''"]
  by (simp add: samplePage_def)

subsection \<open>The front-matter parser\<close>

lemma bytes_Index_short: "length s < length sep \<Longrightarrow> bytes_Index s sep = None"
  by (induction s) (auto simp: HasPrefix_def)

lemma HasPrefix_take: "HasPrefix (take n s) sep \<Longrightarrow> HasPrefix s sep"
proof -
  assume h: "HasPrefix (take n s) sep"
  then have le: "length sep \<le> n" "length sep \<le> length s" by (auto simp: HasPrefix_def)
  have "take (length sep) (take n s) = take (length sep) s"
    using le(1) by (simp add: min_absorb1)
  moreover from h have "take (length sep) (take n s) = sep" unfolding HasPrefix_def by blast
  ultimately have "take (length sep) s = sep" by metis
  with le show ?thesis by (simp add: HasPrefix_def)
qed

lemma bytes_Index_take_None:
  "bytes_Index s sep = Some pos \<Longrightarrow> n < pos + length sep \<Longrightarrow> bytes_Index (take n s) sep = None"
proof (induction s arbitrary: pos n)
  case Nil
  then show ?case by (auto split: if_splits)
next
  case (Cons c cs)
  show ?case
  proof (cases "HasPrefix (c # cs) sep")
    case True
    with Cons.prems have "pos = 0" by simp
    with Cons.prems have "length (take n (c # cs)) < length sep" by simp
    then show ?thesis by (rule bytes_Index_short)
  next
    case False
    with Cons.prems obtain pos' where p: "bytes_Index cs sep = Some pos'" "pos = Suc pos'"
      by (auto split: option.splits)
    show ?thesis
    proof (cases n)
      case 0
      with False show ?thesis by (auto simp: HasPrefix_def)
    next
      case (Suc m)
      from False HasPrefix_take[of "Suc m" "c # cs" sep] have np: "\<not> HasPrefix (c # take m cs) sep"
        by auto
      from Cons.IH[OF p(1), of m] Cons.prems p Suc have "bytes_Index (take m cs) sep = None" by simp
      with np Suc show ?thesis by simp
    qed
  qed
qed

lemma bytes_Index_Some:
  "bytes_Index s sep = Some pos \<Longrightarrow> s = take pos s @ sep @ drop (pos + length sep) s"
proof (induction s arbitrary: pos)
  case Nil
  then show ?case by (auto split: if_splits)
next
  case (Cons c cs)
  show ?case
  proof (cases "HasPrefix (c # cs) sep")
    case True
    with Cons.prems have "pos = 0" by simp
    moreover from True have "c # cs = sep @ drop (length sep) (c # cs)"
      unfolding HasPrefix_def by (metis append_take_drop_id)
    ultimately show ?thesis by simp
  next
    case False
    with Cons.prems obtain pos' where p: "bytes_Index cs sep = Some pos'" "pos = Suc pos'"
      by (auto split: option.splits)
    from Cons.IH[OF p(1)] p(2) show ?thesis by simp
  qed
qed

lemma parseFrontMatter_take:
  assumes "fs (Filepath p) = Some fh"
  shows "parseFrontMatter um fs p
       = parseFrontMatter um (fs(Filepath p \<mapsto> fh\<lparr>content := take 1024 (content fh)\<rparr>)) p"
  using assms by (simp add: parseFrontMatter_def fh_Read_def)

lemma parseFrontMatter_beyond:
  assumes "fs (Filepath p) = Some fh" "HasPrefix (content fh) frontMatter"
    "bytes_Index (drop 3 (content fh)) frontMatter = Some pos" "1024 \<le> pos + 3"
  shows "parseFrontMatter um fs p = Inl (MissingClosingFrontMatter (Filepath p))"
proof -
  have ne: "content fh \<noteq> []" using assms(2) by (auto simp: HasPrefix_def frontMatter_def)
  have pre: "HasPrefix (take 1024 (content fh)) frontMatter"
    using assms(2) by (auto simp: HasPrefix_def frontMatter_def min_def take_take)
  have "drop 3 (take 1024 (content fh)) = take 1021 (drop 3 (content fh))"
    by (simp add: drop_take)
  moreover have "bytes_Index (take 1021 (drop 3 (content fh))) frontMatter = None"
    using assms(3,4) by (intro bytes_Index_take_None[where pos=pos]) (auto simp: frontMatter_def)
  ultimately show ?thesis using assms(1) ne pre
    by (simp add: parseFrontMatter_def fh_Read_def)
qed

lemma bytes_Index_replicate:
  "sep \<noteq> [] \<Longrightarrow> c \<noteq> hd sep \<Longrightarrow> bytes_Index (replicate n c @ sep @ r) sep = Some n"
proof (induction n)
  case 0
  then obtain x xs where "sep = x # xs" by (cases sep) auto
  then show ?case by (simp add: HasPrefix_def)
next
  case (Suc n)
  then have "\<not> HasPrefix (c # replicate n c @ sep @ r) sep"
    by (cases sep) (auto simp: HasPrefix_def)
  with Suc show ?case by simp
qed

text \<open>
  Claim C10. The parser looks at the first 1024 bytes only, the result of its one read:
  it returns what it returns on the file cut to 1024 bytes. When the file begins with the
  delimiter and the first delimiter after byte 3 begins at offset 1024 or later, the
  result is the missing-closing-delimiter error with the path of the file, although the
  whole file holds a closing delimiter.
\<close>

theorem parseFrontMatter_reads_1024:
  assumes "fs (Filepath p) = Some fh"
  shows "parseFrontMatter um fs p
           = parseFrontMatter um (fs(Filepath p \<mapsto> fh\<lparr>content := take 1024 (content fh)\<rparr>)) p
         \<and> (HasPrefix (content fh) frontMatter
              \<and> bytes_Index (drop 3 (content fh)) frontMatter = Some pos \<and> 1024 \<le> pos + 3
            \<longrightarrow> parseFrontMatter um fs p = Inl (MissingClosingFrontMatter (Filepath p)))"
  using parseFrontMatter_take[of fs p fh um] parseFrontMatter_beyond[of fs p fh pos um] assms
  by blast

theorem parseFrontMatter_reads_1024_witness:
  "HasPrefix longHeader frontMatter
   \<and> bytes_Index (drop 3 longHeader) frontMatter = Some 1021
   \<and> parseFrontMatter keepPage (oneFile ''content/long.md'' longHeader)
        (samplePage ''content/long.md'' ''page'' zeroTime)
      = Inl (MissingClosingFrontMatter ''content/long.md'')"
proof -
  have f: "oneFile ''content/long.md'' longHeader (Filepath (samplePage ''content/long.md'' ''page'' zeroTime))
             = Some \<lparr>content = longHeader, ModTime = zeroTime\<rparr>"
    by (simp add: oneFile_def samplePage_def)
  have "drop 3 longHeader = replicate 1021 (CHR ''x'') @ frontMatter @ []"
    by (simp add: longHeader_def frontMatter_def)
  then have i: "bytes_Index (drop 3 longHeader) frontMatter = Some 1021"
    using bytes_Index_replicate[of frontMatter "CHR ''x''" 1021 "[]"] by (simp add: frontMatter_def)
  have h: "HasPrefix longHeader frontMatter"
    by (simp add: HasPrefix_def longHeader_def frontMatter_def)
  have prem: "HasPrefix (content \<lparr>content = longHeader, ModTime = zeroTime\<rparr>) frontMatter
      \<and> bytes_Index (drop 3 (content \<lparr>content = longHeader, ModTime = zeroTime\<rparr>)) frontMatter = Some 1021
      \<and> (1024::nat) \<le> 1021 + 3"
    using h i by simp
  from parseFrontMatter_reads_1024
         [of "oneFile ''content/long.md'' longHeader" "samplePage ''content/long.md'' ''page'' zeroTime"
             "\<lparr>content = longHeader, ModTime = zeroTime\<rparr>" keepPage 1021,
          OF f, THEN conjunct2, THEN mp, OF prem]
  show ?thesis using h i by (simp add: samplePage_def)
qed

subsection \<open>The content renderer\<close>



text \<open>
  Claim C2. The renderer does not test for the opening delimiter: a file that does not
  begin with \<open>+++\<close>, and in which the front-matter parser finds no header block, loses
  everything up to the first \<open>+++\<close> found after byte 3. The first file below is an HTML
  page, the second a Markdown page, whose converter receives the cut text.
\<close>

theorem ParseContent_cuts_file_without_header:
  "\<not> HasPrefix ''<p>1 +++ 2</p>'' frontMatter
   \<and> parseFrontMatter um (oneFile ''content/a.html'' ''<p>1 +++ 2</p>'')
        (samplePage ''content/a.html'' ''page'' zeroTime)
      = Inr (samplePage ''content/a.html'' ''page'' zeroTime)
   \<and> ParseContent md (oneFile ''content/a.html'' ''<p>1 +++ 2</p>'')
        (samplePage ''content/a.html'' ''page'' zeroTime) = Inr '' 2</p>''
   \<and> ParseContent md (oneFile ''content/a.md'' ''one +++ two'')
        (samplePage ''content/a.md'' ''page'' zeroTime) = md '' two''"
  by code_simp

subsection \<open>The filename parser\<close>

text \<open>A path that is not empty and does not end in a slash ends in its last element.\<close>

lemma filepath_Base_suffix:
  assumes "p \<noteq> []" and "\<not> HasSuffix p ''/''"
  shows "p = take (length p - length (filepath_Base p)) p @ filepath_Base p"
proof -
  from assms have l: "last p \<noteq> CHR ''/''"
    by (cases p rule: rev_cases) (auto simp: HasSuffix_def)
  from assms(1) l have hd: "hd (rev p) \<noteq> CHR ''/''" by (simp add: hd_rev)
  from assms(1) have rne: "rev p \<noteq> []" by simp
  from hd rne have dw: "dropWhile (\<lambda>c. c = CHR ''/'') (rev p) = rev p"
    by (cases "rev p") auto
  from hd rne have tw: "takeWhile (\<lambda>c. c \<noteq> CHR ''/'') (rev p) \<noteq> []"
    by (cases "rev p") auto
  let ?e = "rev (takeWhile (\<lambda>c. c \<noteq> CHR ''/'') (rev p))"
  let ?d = "rev (dropWhile (\<lambda>c. c \<noteq> CHR ''/'') (rev p))"
  from assms(1) dw tw have b: "filepath_Base p = ?e" by (simp add: filepath_Base_def Let_def)
  have "rev (rev p) = rev (takeWhile (\<lambda>c. c \<noteq> CHR ''/'') (rev p) @ dropWhile (\<lambda>c. c \<noteq> CHR ''/'') (rev p))"
    by simp
  then have split: "p = ?d @ ?e" by (simp only: rev_rev_ident rev_append)
  then have "take (length p - length ?e) p = ?d"
    by (metis add_diff_cancel_right' append_eq_conv_conj length_append)
  with split b show ?thesis by simp
qed




text \<open>
  When the trimmed path does not end in a slash, the URL path is the directory part, the
  last element without its first eleven characters, and a slash, and the date is the one
  parsed.
\<close>

lemma parseFilename_dated_file:
  assumes "hasDatePrefix (filepath_Base (trimPath file rootDir))"
    and "time_Parse (take 10 (filepath_Base (trimPath file rootDir))) = Inr date"
    and "\<not> HasSuffix (trimPath file rootDir) ''/''"
  shows "\<exists>dir. trimPath file rootDir = dir @ filepath_Base (trimPath file rootDir)
             \<and> parseFilename file rootDir
                 = (dir @ drop 11 (filepath_Base (trimPath file rootDir)) @ ''/'', date)"
proof -
  let ?t = "trimPath file rootDir"
  have ne: "?t \<noteq> []"
  proof
    assume "?t = []"
    then have "filepath_Base ?t = ''.''" by (simp add: filepath_Base_def)
    with assms(1) show False by (simp add: hasDatePrefix_def)
  qed
  from filepath_Base_suffix[OF ne assms(3)]
  have "?t = take (length ?t - length (filepath_Base ?t)) ?t @ filepath_Base ?t" .
  moreover from assms(1,2)
  have "parseFilename file rootDir
          = (take (length ?t - length (filepath_Base ?t)) ?t @ drop 11 (filepath_Base ?t) @ ''/'', date)"
    by (simp add: parseFilename_def Let_def)
  ultimately show ?thesis by blast
qed

lemma parseFilename_dated_file_witness:
  "hasDatePrefix (filepath_Base (trimPath ''content/blog/2023-05-01-hello.md'' ''''))
   \<and> (\<exists>dir. ''blog/2023-05-01-hello'' = dir @ ''2023-05-01-hello''
          \<and> parseFilename ''content/blog/2023-05-01-hello.md'' ''''
              = (dir @ ''hello/'', \<lparr>year = 2023, month = 5, day = 1, nsec = 0\<rparr>))"
proof -
  have t: "trimPath ''content/blog/2023-05-01-hello.md'' '''' = ''blog/2023-05-01-hello''"
    by code_simp
  have b: "filepath_Base ''blog/2023-05-01-hello'' = ''2023-05-01-hello''" by code_simp
  have h: "hasDatePrefix (filepath_Base (trimPath ''content/blog/2023-05-01-hello.md'' ''''))"
    by code_simp
  have d: "time_Parse (take 10 (filepath_Base (trimPath ''content/blog/2023-05-01-hello.md'' '''')))
             = Inr \<lparr>year = 2023, month = 5, day = 1, nsec = 0\<rparr>"
    by code_simp
  have s: "\<not> HasSuffix (trimPath ''content/blog/2023-05-01-hello.md'' '''') ''/''" by code_simp
  from parseFilename_dated_file[OF h d s] t b h show ?thesis by simp
qed

subsection \<open>The category of a page\<close>








subsection \<open>The walk\<close>










lemma WalkDir_append:
  "WalkDir um fs (ds @ es) s =
     (case WalkDir um fs ds s of
        (None, s1) \<Rightarrow> WalkDir um fs es s1
      | (Some err, s1) \<Rightarrow> (Some err, s1))"
  by (induction ds arbitrary: s) (auto split: sum.splits)

lemma bytes_Index_None_take:
  "bytes_Index s sep = None \<Longrightarrow> sep \<noteq> [] \<Longrightarrow> bytes_Index (take n s) sep = None"
proof (induction s arbitrary: n)
  case Nil
  then show ?case by simp
next
  case (Cons c cs)
  from Cons.prems have np: "\<not> HasPrefix (c # cs) sep" and tl: "bytes_Index cs sep = None"
    by (auto split: if_splits option.splits)
  show ?case
  proof (cases n)
    case 0
    with Cons.prems show ?thesis by simp
  next
    case (Suc m)
    from np HasPrefix_take[of "Suc m" "c # cs" sep] have "\<not> HasPrefix (c # take m cs) sep"
      by auto
    with Cons.IH[OF tl Cons.prems(2), of m] Suc show ?thesis by simp
  qed
qed

lemma AddPageFromFile_unclosed_header:
  assumes "fs file = Some fh"
    and "HasPrefix (content fh) frontMatter"
    and "bytes_Index (drop 3 (content fh)) frontMatter = None"
    and "2 \<le> length (strings_Split file (CHR ''/''))"
  shows "AddPageFromFile um fs s file = Inl (MissingClosingFrontMatter file)"
proof -
  have ne: "content fh \<noteq> []" using assms(2) by (auto simp: HasPrefix_def frontMatter_def)
  have pre: "HasPrefix (take 1024 (content fh)) frontMatter"
    using assms(2) by (auto simp: HasPrefix_def frontMatter_def min_def take_take)
  have "drop 3 (take 1024 (content fh)) = take 1021 (drop 3 (content fh))"
    by (simp add: drop_take)
  moreover have "bytes_Index (take 1021 (drop 3 (content fh))) frontMatter = None"
    using assms(3) by (rule bytes_Index_None_take) (simp add: frontMatter_def)
  ultimately have "parseFrontMatter um fs p = Inl (MissingClosingFrontMatter file)"
    if "Filepath p = file" for p
    using that assms(1) ne pre by (simp add: parseFrontMatter_def fh_Read_def)
  with assms(1,4) show ?thesis
    by (simp add: AddPageFromFile_def Let_def split: prod.splits)
qed

text \<open>
  Claim C1, as the code has it. When the walk reaches a file that begins with the delimiter
  and holds no closing delimiter, adding the page fails with the error that names the
  file, and the walk stops there: the site holds the pages registered before that file
  and none of the files after it, the posts are sorted, and \<^verbatim>\<open>readContent\<close> returns
  the error.
\<close>

theorem readContent_stops_at_unclosed_header:
  assumes "WalkDir um fs ds s = (None, s1)"
    and "\<not> IsDir d" and "fs (path d) = Some fh"
    and "HasPrefix (content fh) frontMatter"
    and "bytes_Index (drop 3 (content fh)) frontMatter = None"
    and "2 \<le> length (strings_Split (path d) (CHR ''/''))"
  shows "AddPageFromFile um fs s1 (path d) = Inl (MissingClosingFrontMatter (path d))
       \<and> readContent srt um fs (ds @ d # es) s
           = (Some (MissingClosingFrontMatter (path d)), s1\<lparr>posts := srt lessPosts (posts s1)\<rparr>)"
proof -
  have a: "AddPageFromFile um fs s1 (path d) = Inl (MissingClosingFrontMatter (path d))"
    using assms(3-6) by (rule AddPageFromFile_unclosed_header)
  with assms(1,2) have "WalkDir um fs (ds @ d # es) s = (Some (MissingClosingFrontMatter (path d)), s1)"
    by (simp add: WalkDir_append)
  with a show ?thesis by (simp add: readContent_def)
qed

theorem readContent_stops_at_unclosed_header_witness:
  "readContent insertionSort keepPage
     (twoFiles ''content/a.md'' ''+++title = A'' ''content/b.md'' ''hello'')
     (flatWalk [''content/a.md'', ''content/b.md'']) (emptySite '''')
   = (Some (MissingClosingFrontMatter ''content/a.md''), emptySite '''')"
proof -
  let ?fs = "twoFiles ''content/a.md'' ''+++title = A'' ''content/b.md'' ''hello''"
  let ?d = "\<lparr>path = ''content/a.md'', IsDir = False\<rparr>"
  have w: "WalkDir keepPage ?fs [\<lparr>path = ''content'', IsDir = True\<rparr>] (emptySite '''')
             = (None, emptySite '''')" by simp
  have nd: "\<not> IsDir ?d" by simp
  have f: "?fs (path ?d) = Some \<lparr>content = ''+++title = A'', ModTime = zeroTime\<rparr>"
    by (simp add: twoFiles_def)
  have h: "HasPrefix (content \<lparr>content = ''+++title = A'', ModTime = zeroTime\<rparr>) frontMatter"
    by code_simp
  have i: "bytes_Index (drop 3 (content \<lparr>content = ''+++title = A'', ModTime = zeroTime\<rparr>)) frontMatter = None"
    by code_simp
  have l: "2 \<le> length (strings_Split (path ?d) (CHR ''/''))" by code_simp
  have srt: "(emptySite '''')\<lparr>posts := insertionSort lessPosts (posts (emptySite ''''))\<rparr> = emptySite ''''"
    by (simp add: emptySite_def insertionSort_def)
  from readContent_stops_at_unclosed_header
         [of keepPage ?fs "[\<lparr>path = ''content'', IsDir = True\<rparr>]" "emptySite ''''" "emptySite ''''" ?d
             "\<lparr>content = ''+++title = A'', ModTime = zeroTime\<rparr>" insertionSort
             "[\<lparr>path = ''content/b.md'', IsDir = False\<rparr>]", OF w nd f h i l, THEN conjunct2]
  show ?thesis by (simp add: flatWalk_def srt)
qed

text \<open>
  The claim as stated fails: with the unclosed file \<open>a.md\<close> before it in the walk, the
  sibling \<open>b.md\<close> is not registered, while it is registered when \<open>a.md\<close> is absent.
\<close>

theorem readContent_siblings_counterexample:
  "fst (readContent insertionSort keepPage
          (twoFiles ''content/a.md'' ''+++title = A'' ''content/b.md'' ''hello'')
          (flatWalk [''content/a.md'', ''content/b.md'']) (emptySite ''''))
     = Some (MissingClosingFrontMatter ''content/a.md'')
   \<and> map Filepath (pages (snd (readContent insertionSort keepPage
          (twoFiles ''content/a.md'' ''+++title = A'' ''content/b.md'' ''hello'')
          (flatWalk [''content/a.md'', ''content/b.md'']) (emptySite '''')))) = []
   \<and> map Filepath (pages (snd (readContent insertionSort keepPage
          (twoFiles ''content/a.md'' ''+++title = A'' ''content/b.md'' ''hello'')
          (flatWalk [''content/b.md'']) (emptySite '''')))) = [''content/b.md'']"
  by code_simp





subsection \<open>The RSS feed\<close>




end
